theory Spec2Isabelle
  imports Complex_Main
begin

section \<open>The icon generator \<open>generate-icons.py\<close>\<close>

text \<open>
  The script draws a sine wave and a marker dot on a square image and saves it as PNG,
  for four fixed sizes. Python's unbounded integers are modelled by \<open>int\<close>, and
  \<open>int(y)\<close> on a float by truncation toward zero. The float expressions are read over
  \<open>real\<close> (exact arithmetic, \<open>math.sin\<close> as \<open>sin\<close>, \<open>math.pi\<close> as \<open>pi\<close>); those of the wave
  are given a second time in double precision, with every operation rounded.
\<close>

subsection \<open>Numbers\<close>

definition py_int :: "real \<Rightarrow> int" where
  \<comment> \<open>Python's \<open>int(y)\<close> for a float \<open>y\<close>: the fractional part is dropped.\<close>
  "py_int r = (if r < 0 then \<lceil>r\<rceil> else \<lfloor>r\<rfloor>)"

subsection \<open>The wave\<close>

definition wave_amplitude :: "int \<Rightarrow> real" where
  "wave_amplitude sz = real_of_int sz * 0.15"

definition wave_center_y :: "int \<Rightarrow> int" where
  "wave_center_y sz = sz div 2"

definition wave_frequency :: real where
  "wave_frequency = 1.5"

definition normalized_x :: "int \<Rightarrow> int \<Rightarrow> real" where
  "normalized_x sz x = (real_of_int x / real_of_int sz) * 2 * pi * wave_frequency"

definition wave_y :: "int \<Rightarrow> int \<Rightarrow> real" where
  \<comment> \<open>The \<open>y\<close> of the loop body at column \<open>x\<close>, in exact arithmetic.\<close>
  "wave_y sz x =
     real_of_int (wave_center_y sz) + sin (normalized_x sz x) * wave_amplitude sz"

function wave_loop :: "int \<Rightarrow> int \<Rightarrow> (int \<times> int) list \<Rightarrow> (int \<times> int) list" where
  \<comment> \<open>\<open>for x in range(x, size): points.append((x, int(y)))\<close>\<close>
  "wave_loop sz x points =
     (if x < sz then wave_loop sz (x + 1) (points @ [(x, py_int (wave_y sz x))])
      else points)"
  by pat_completeness auto
termination
  by (relation "measure (\<lambda>(sz, x, points). nat (sz - x))") auto

declare wave_loop.simps [simp del]

definition wave_points :: "int \<Rightarrow> (int \<times> int) list" where
  \<comment> \<open>\<open>points = []\<close> followed by the loop over \<open>range(0, size)\<close>.\<close>
  "wave_points sz = wave_loop sz 0 []"

definition line_width :: "int \<Rightarrow> int" where
  "line_width sz = max 2 (sz div 100)"

subsection \<open>The wave in double precision\<close>

text \<open>
  Python's floats are binary64 numbers, and every operation of the script returns the
  binary64 number nearest to its exact result. \<open>fl\<close> is that rounding; the exponent range
  is not modelled, which only a size beyond \<open>2^1000\<close> would reach. \<open>math.sin\<close> belongs to
  the C library behind Python, so it is a parameter \<open>msin\<close> of what follows. The
  definitions above give the value of each expression in exact arithmetic, the ones below
  the double that the script holds.
\<close>

definition round_half_even :: "real \<Rightarrow> int" where
  \<comment> \<open>The nearest integer, a tie going to the even one.\<close>
  "round_half_even r =
     (let f = \<lfloor>r\<rfloor>; d = r - real_of_int f in
      if d < 1 / 2 then f else if 1 / 2 < d then f + 1 else if even f then f else f + 1)"

definition fl :: "real \<Rightarrow> real" where
  \<comment> \<open>The binary64 number nearest to \<open>r\<close>: a significand of 53 bits, scaled by the
      power of two that the magnitude of \<open>r\<close> asks for.\<close>
  "fl r =
     (if r = 0 then 0
      else let ulp = 2 powr (real_of_int \<lfloor>log 2 \<bar>r\<bar>\<rfloor> - 52) in
        real_of_int (round_half_even (r / ulp)) * ulp)"

definition float_wave_amplitude :: "int \<Rightarrow> real" where
  \<comment> \<open>\<open>size * 0.15\<close>: the integer is converted, the literal is the double nearest to
      0.15, the product is rounded.\<close>
  "float_wave_amplitude sz = fl (fl (real_of_int sz) * fl 0.15)"

definition float_normalized_x :: "int \<Rightarrow> int \<Rightarrow> real" where
  \<comment> \<open>\<open>(x / size) * 2 * math.pi * wave_frequency\<close>, left to right; \<open>math.pi\<close> is the
      double nearest to \<open>pi\<close>, and 2 and 1.5 are doubles as they stand.\<close>
  "float_normalized_x sz x =
     fl (fl (fl (fl (real_of_int x / real_of_int sz) * 2) * fl pi) * 1.5)"

definition float_wave_y :: "(real \<Rightarrow> real) \<Rightarrow> int \<Rightarrow> int \<Rightarrow> real" where
  \<comment> \<open>\<open>wave_center_y + math.sin(normalized_x) * wave_amplitude\<close>\<close>
  "float_wave_y msin sz x =
     fl (fl (real_of_int (wave_center_y sz))
         + fl (msin (float_normalized_x sz x) * float_wave_amplitude sz))"

function float_wave_loop ::
  "(real \<Rightarrow> real) \<Rightarrow> int \<Rightarrow> int \<Rightarrow> (int \<times> int) list \<Rightarrow> (int \<times> int) list" where
  \<comment> \<open>\<open>for x in range(x, size): points.append((x, int(y)))\<close>\<close>
  "float_wave_loop msin sz x points =
     (if x < sz
      then float_wave_loop msin sz (x + 1) (points @ [(x, py_int (float_wave_y msin sz x))])
      else points)"
  by pat_completeness auto
termination
  by (relation "measure (\<lambda>(msin, sz, x, points). nat (sz - x))") auto

declare float_wave_loop.simps [simp del]

definition float_wave_points :: "(real \<Rightarrow> real) \<Rightarrow> int \<Rightarrow> (int \<times> int) list" where
  "float_wave_points msin sz = float_wave_loop msin sz 0 []"

definition rounded_sin :: "real \<Rightarrow> real" where
  \<comment> \<open>A library sine that returns the double nearest to the true sine.\<close>
  "rounded_sin t = fl (sin t)"

subsection \<open>The marker\<close>

definition marker_x :: "int \<Rightarrow> int" where
  "marker_x sz = sz div 2"

definition marker_y :: "int \<Rightarrow> int" where
  "marker_y sz = wave_center_y sz - py_int (wave_amplitude sz * 0.5)"

definition marker_radius :: "int \<Rightarrow> int" where
  "marker_radius sz = max 6 (sz div 40)"

definition glow_radius :: "int \<Rightarrow> int" where
  "glow_radius sz = marker_radius sz + 4"

subsection \<open>Strings\<close>

function digits :: "nat \<Rightarrow> string" where
  \<comment> \<open>The decimal digits of a natural number, most significant first.\<close>
  "digits n =
     (if n < 10 then [char_of (48 + n)] else digits (n div 10) @ [char_of (48 + n mod 10)])"
  by pat_completeness auto
termination
  by (relation "measure (\<lambda>n. n)") auto

declare digits.simps [simp del]

definition str :: "int \<Rightarrow> string" where
  \<comment> \<open>How an f-string renders an integer.\<close>
  "str i = (if i < 0 then CHR ''-'' # digits (nat (- i)) else digits (nat i))"

definition check_mark :: string where
  \<comment> \<open>The character U+2713 of the status lines, as its three UTF-8 bytes.\<close>
  "check_mark = [char_of (226::nat), char_of (156::nat), char_of (147::nat)]"

subsection \<open>The imaging library, as far as the script uses it\<close>

text \<open>
  The script imports \<open>Image\<close> and \<open>ImageDraw\<close> from Pillow. The library is not part of
  the script; what follows records the documented behaviour of the four entry points
  the script calls (\<open>Image.new\<close>, \<open>ImageDraw.Draw\<close>, \<open>draw.line\<close>, \<open>draw.ellipse\<close>,
  \<open>img.save\<close>) and of the colour strings they accept. An image is kept as its mode, its
  size, the colour it was created with and the shapes painted on it, oldest first.
\<close>

datatype error = ValueError | OSError | UnicodeEncodeError

definition err_bind :: "error + 'a \<Rightarrow> ('a \<Rightarrow> error + 'b) \<Rightarrow> error + 'b" where
  \<comment> \<open>Sequencing: an exception raised by the first step skips the rest.\<close>
  "err_bind m f = (case m of Inl e \<Rightarrow> Inl e | Inr a \<Rightarrow> f a)"

definition hex_digit :: "char \<Rightarrow> int option" where
  "hex_digit c =
     (let n = (of_char c :: int) in
      if 48 \<le> n \<and> n \<le> 57 then Some (n - 48)
      else if 65 \<le> n \<and> n \<le> 70 then Some (n - 55)
      else if 97 \<le> n \<and> n \<le> 102 then Some (n - 87)
      else None)"

fun hex_bytes :: "string \<Rightarrow> int list option" where
  \<comment> \<open>Pairs of hexadecimal digits, each pair one colour component.\<close>
  "hex_bytes [] = Some []"
| "hex_bytes [c] = None"
| "hex_bytes (c # d # cs) =
     (case (hex_digit c, hex_digit d, hex_bytes cs) of
        (Some h, Some l, Some bs) \<Rightarrow> Some ((16 * h + l) # bs)
      | _ \<Rightarrow> None)"

definition getrgb :: "string \<Rightarrow> error + int list" where
  \<comment> \<open>\<open>ImageColor.getrgb\<close> on the notations \<open>#rrggbb\<close> and \<open>#rrggbbaa\<close>, the only ones
      the script writes: three components, or four with the alpha last.\<close>
  "getrgb color =
     (case color of
        c # cs \<Rightarrow>
          (if c = CHR ''#'' \<and> (length cs = 6 \<or> length cs = 8)
           then (case hex_bytes cs of Some bs \<Rightarrow> Inr bs | None \<Rightarrow> Inl ValueError)
           else Inl ValueError)
      | [] \<Rightarrow> Inl ValueError)"

definition getcolor :: "string \<Rightarrow> string \<Rightarrow> error + int list" where
  \<comment> \<open>\<open>ImageColor.getcolor\<close>: the colour converted to the given mode. Only a mode whose
      name ends in \<open>A\<close> keeps the alpha; mode \<open>RGB\<close> gets the three colour bytes.\<close>
  "getcolor color mode =
     err_bind (getrgb color) (\<lambda>c.
       let rgb = take 3 c; alpha = (if length c = 4 then c ! 3 else 255) in
       if mode \<noteq> [] \<and> last mode = CHR ''A'' then Inr (rgb @ [alpha]) else Inr rgb)"

datatype paint =
    Line "(int \<times> int) list" "int list" int
  | Ellipse "int \<times> int \<times> int \<times> int" "int list"

record image =
  im_mode :: string
  im_size :: "int \<times> int"
  im_color :: "int list"
  im_paint :: "paint list"

definition Image_new :: "string \<Rightarrow> int \<times> int \<Rightarrow> string \<Rightarrow> error + image" where
  \<comment> \<open>\<open>Image.new(mode, size, color)\<close>; a negative width or height is refused.\<close>
  "Image_new mode wh color =
     (if fst wh < 0 \<or> snd wh < 0 then Inl ValueError
      else err_bind (getcolor color mode) (\<lambda>c.
        Inr \<lparr>im_mode = mode, im_size = wh, im_color = c, im_paint = []\<rparr>))"

record draw =
  dr_mode :: string
  dr_blend :: bool

definition Draw :: "image \<Rightarrow> draw" where
  \<comment> \<open>\<open>ImageDraw.Draw(im)\<close> with no mode argument: the context takes the image's mode
      and does not blend. (Blending needs \<open>Draw(im, 'RGBA')\<close> on an \<open>RGB\<close> image.)\<close>
  "Draw im = \<lparr>dr_mode = im_mode im, dr_blend = False\<rparr>"

definition draw_line ::
  "draw \<Rightarrow> image \<Rightarrow> (int \<times> int) list \<Rightarrow> string \<Rightarrow> int \<Rightarrow> error + image" where
  \<comment> \<open>\<open>draw.line(xy, fill=..., width=...)\<close>\<close>
  "draw_line d im xy fill width =
     err_bind (getcolor fill (dr_mode d)) (\<lambda>ink.
       Inr (im\<lparr>im_paint := im_paint im @ [Line xy ink width]\<rparr>))"

definition draw_ellipse ::
  "draw \<Rightarrow> image \<Rightarrow> int \<times> int \<times> int \<times> int \<Rightarrow> string \<Rightarrow> error + image" where
  \<comment> \<open>\<open>draw.ellipse([x0, y0, x1, y1], fill=...)\<close>, no outline\<close>
  "draw_ellipse d im xy fill =
     err_bind (getcolor fill (dr_mode d)) (\<lambda>ink.
       Inr (im\<lparr>im_paint := im_paint im @ [Ellipse xy ink]\<rparr>))"

subsection \<open>Files and console\<close>

record disk_file =
  f_format :: string
  f_image :: image

record world =
  files :: "(string \<times> disk_file) list"
  stdout :: "string list"
  writable :: "string \<Rightarrow> bool"
  console_utf8 :: bool

text \<open>
  \<open>files\<close> lists the writes in the order they happened; a later write to the same name
  replaces the earlier content. \<open>stdout\<close> lists the lines printed. \<open>writable\<close> tells which
  paths the file system lets the program open for writing (the directory exists, the
  permissions allow it, there is room). \<open>console_utf8\<close> tells whether the encoding of
  standard output has the check mark U+2713, as UTF-8 has and \<open>cp1252\<close> or ASCII have
  not; text of ASCII characters only prints under every encoding.
\<close>

type_synonym 'a io = "world \<Rightarrow> (error + 'a) \<times> world"

definition io_bind :: "'a io \<Rightarrow> ('a \<Rightarrow> 'b io) \<Rightarrow> 'b io" where
  \<comment> \<open>One statement after another: an exception skips what follows and keeps the world
      as the statements before it left it.\<close>
  "io_bind m f w = (case m w of (Inl e, w') \<Rightarrow> (Inl e, w') | (Inr a, w') \<Rightarrow> f a w')"

definition io_lift :: "error + 'a \<Rightarrow> 'a io" where
  \<comment> \<open>A step that does not touch the world.\<close>
  "io_lift r w = (r, w)"

definition save :: "image \<Rightarrow> string \<Rightarrow> string \<Rightarrow> unit io" where
  \<comment> \<open>\<open>img.save(filename, format)\<close>: the file is opened for writing, which raises
      \<open>OSError\<close> when the file system refuses, and the encoded image is written.\<close>
  "save im filename fmt w =
     (if writable w filename
      then (Inr (), w\<lparr>files := files w @ [(filename, \<lparr>f_format = fmt, f_image = im\<rparr>)]\<rparr>)
      else (Inl OSError, w))"

definition print :: "string \<Rightarrow> unit io" where
  \<comment> \<open>\<open>print(line)\<close>: a character the console encoding lacks raises
      \<open>UnicodeEncodeError\<close> and nothing of the line is written.\<close>
  "print line w =
     (if console_utf8 w \<or> list_all (\<lambda>c. (of_char c :: nat) < 128) line
      then (Inr (), w\<lparr>stdout := stdout w @ [line]\<rparr>)
      else (Inl UnicodeEncodeError, w))"

subsection \<open>\<open>create_icon\<close>\<close>

definition icon :: "int \<Rightarrow> error + image" where
  \<comment> \<open>The drawing part of \<open>create_icon\<close>, from \<open>Image.new\<close> to the second ellipse.\<close>
  "icon sz =
     err_bind (Image_new ''RGB'' (sz, sz) ''#05060A'') (\<lambda>img.
     let d = Draw img; points = wave_points sz in
     err_bind (draw_line d img points ''#7AA7FF'' (line_width sz)) (\<lambda>img.
     err_bind (draw_ellipse d img
                (marker_x sz - glow_radius sz, marker_y sz - glow_radius sz,
                 marker_x sz + glow_radius sz, marker_y sz + glow_radius sz)
                ''#7AA7FF40'') (\<lambda>img.
     draw_ellipse d img
       (marker_x sz - marker_radius sz, marker_y sz - marker_radius sz,
        marker_x sz + marker_radius sz, marker_y sz + marker_radius sz)
       ''#7AA7FF'')))"

definition created_line :: "string \<Rightarrow> int \<Rightarrow> string" where
  "created_line filename sz =
     check_mark @ '' Created '' @ filename @ '' ('' @ str sz @ ''x'' @ str sz @ '')''"

definition create_icon :: "int \<Rightarrow> string \<Rightarrow> unit io" where
  "create_icon sz filename =
     io_bind (io_lift (icon sz)) (\<lambda>img.
     io_bind (save img filename ''PNG'') (\<lambda>_.
     print (created_line filename sz)))"

subsection \<open>The script\<close>

definition main :: "unit io" where
  \<comment> \<open>The body under \<open>if __name__ == '__main__'\<close>.\<close>
  "main =
     io_bind (print ''Generating SineDay Wave icons...'') (\<lambda>_.
     io_bind (create_icon 192 ''icon-192.png'') (\<lambda>_.
     io_bind (create_icon 512 ''icon-512.png'') (\<lambda>_.
     io_bind (create_icon 32 ''favicon.png'') (\<lambda>_.
     io_bind (create_icon 180 ''apple-touch-icon.png'') (\<lambda>_.
     io_bind (print (CHR 0x0A # (check_mark @ '' All icons generated successfully!''))) (\<lambda>_.
     print (CHR 0x0A # ''You can now delete ICONS_TODO.md and this script.'')))))))"

datatype outcome =
    Finished world
  | SystemExit int world
  | Traceback error world

definition import_guard :: "unit io" where
  \<comment> \<open>The \<open>except ImportError\<close> branch up to the call of \<open>exit\<close>.\<close>
  "import_guard =
     io_bind (print ''PIL (Pillow) not installed. Install with: pip install Pillow'') (\<lambda>_.
     print ''Alternatively, use the online tool or ImageMagick (see ICONS_TODO.md)'')"

definition script :: "bool \<Rightarrow> bool \<Rightarrow> world \<Rightarrow> outcome" where
  \<comment> \<open>The whole file: \<open>pil\<close> says whether the imports of the \<open>try\<close> block succeed,
      \<open>as_main\<close> whether the file is run as the program. An exception nobody catches
      ends the run with a traceback.\<close>
  "script pil as_main w =
     (if \<not> pil then
        (case import_guard w of
           (Inl e, w') \<Rightarrow> Traceback e w'
         | (Inr u, w') \<Rightarrow> SystemExit 1 w')
      else if as_main then
        (case main w of
           (Inl e, w') \<Rightarrow> Traceback e w'
         | (Inr u, w') \<Rightarrow> Finished w')
      else Finished w)"



subsection \<open>Pixels\<close>

text \<open>
  Which pixels a shape covers is decided by the library's rasteriser, a parameter
  \<open>covers\<close> here. A context that does not blend stores the ink in every covered pixel,
  so a pixel shows the ink of the last shape covering it, or the colour the image was
  created with.
\<close>

fun ink_of :: "paint \<Rightarrow> int list" where
  "ink_of (Line xy ink width) = ink"
| "ink_of (Ellipse xy ink) = ink"

definition getpixel :: "(paint \<Rightarrow> int \<times> int \<Rightarrow> bool) \<Rightarrow> image \<Rightarrow> int \<times> int \<Rightarrow> int list" where
  "getpixel covers im p =
     foldl (\<lambda>c s. if covers s p then ink_of s else c) (im_color im) (im_paint im)"

fun reach :: "paint \<Rightarrow> int \<times> int \<Rightarrow> bool" where
  \<comment> \<open>The pixels a shape can touch at all: the bounding box of an ellipse; for a line,
      the bounding box of its points widened by the stroke width on every side.\<close>
  "reach (Line xy ink width) (px, py) =
     (list_ex (\<lambda>(x, y). x - width \<le> px) xy \<and> list_ex (\<lambda>(x, y). px \<le> x + width) xy \<and>
      list_ex (\<lambda>(x, y). y - width \<le> py) xy \<and> list_ex (\<lambda>(x, y). py \<le> y + width) xy)"
| "reach (Ellipse (x0, y0, x1, y1) ink) (px, py) =
     (x0 \<le> px \<and> px \<le> x1 \<and> y0 \<le> py \<and> py \<le> y1)"

definition corners :: "int \<times> int \<Rightarrow> (int \<times> int) list" where
  "corners wh = [(0, 0), (fst wh - 1, 0), (0, snd wh - 1), (fst wh - 1, snd wh - 1)]"

subsection \<open>The wave formula in the specification's words\<close>

definition spec_wave_y :: "int \<Rightarrow> int \<Rightarrow> real" where
  \<comment> \<open>\<open>y = size/2 + sin(2 pi * 1.5 * x / size) * (0.15 * size)\<close>, with \<open>size/2\<close> the
      true quotient; kept apart from \<open>wave_y\<close>, which is the script's expression.\<close>
  "spec_wave_y sz x =
     real_of_int sz / 2
       + sin (2 * pi * 1.5 * real_of_int x / real_of_int sz) * (0.15 * real_of_int sz)"

section \<open>Properties\<close>

subsection \<open>The loop as a list comprehension\<close>

lemma wave_loop_eq:
  "wave_loop sz x pts = pts @ map (\<lambda>i. (i, py_int (wave_y sz i))) [x..sz - 1]"
proof (induction sz x pts rule: wave_loop.induct)
  case (1 sz x points)
  show ?case
  proof (cases "x < sz")
    case True
    have u: "[x..sz - 1] = x # [x + 1..sz - 1]"
      using True by (intro upto_rec1) simp
    have "wave_loop sz x points = wave_loop sz (x + 1) (points @ [(x, py_int (wave_y sz x))])"
      using True by (subst wave_loop.simps) simp
    also have "\<dots> = (points @ [(x, py_int (wave_y sz x))])
                     @ map (\<lambda>i. (i, py_int (wave_y sz i))) [x + 1..sz - 1]"
      using True by (rule "1")
    also have "\<dots> = points @ map (\<lambda>i. (i, py_int (wave_y sz i))) [x..sz - 1]"
      by (simp only: u list.map append_assoc append_Cons append_Nil)
    finally show ?thesis .
  next
    case False
    then have "wave_loop sz x points = points"
      by (subst wave_loop.simps) simp
    with False show ?thesis by simp
  qed
qed

lemma wave_points_eq:
  "wave_points sz = map (\<lambda>i. (i, py_int (wave_y sz i))) [0..sz - 1]"
  by (simp add: wave_points_def wave_loop_eq)

lemma wave_points_length: "length (wave_points sz) = nat sz"
  by (simp add: wave_points_eq)

lemma wave_points_nth:
  "0 \<le> x \<Longrightarrow> x < sz \<Longrightarrow> wave_points sz ! nat x = (x, py_int (wave_y sz x))"
  by (simp add: wave_points_eq)

lemma wave_points_fst: "map fst (wave_points sz) = [0..sz - 1]"
  by (simp add: wave_points_eq comp_def)

subsection \<open>The marker\<close>

text \<open>
  C5. For every size of at least 1 the marker sits at \<open>x = size // 2\<close> and at
  \<open>y = size // 2\<close> minus the truncation of half the amplitude, \<open>0.5 * 0.15 * size\<close>, which
  is \<open>3 * size // 40\<close>; for size 192 that is the point (96, 82).
\<close>

theorem marker_center:
  assumes "1 \<le> sz"
  shows "marker_x sz = sz div 2
       \<and> marker_y sz = sz div 2 - py_int (0.5 * 0.15 * real_of_int sz)
       \<and> marker_y sz = sz div 2 - (3 * sz) div 40
       \<and> (sz = 192 \<longrightarrow> marker_x sz = 96 \<and> marker_y sz = 82)"
proof -
  have a: "wave_amplitude sz * 0.5 = 0.5 * 0.15 * real_of_int sz"
    by (simp add: wave_amplitude_def)
  have e: "(0.5::real) * 0.15 * real_of_int sz = real_of_int (3 * sz) / real_of_int 40"
    by simp
  have c0: "\<lfloor>real_of_int (3 * sz) / real_of_int 40\<rfloor> = (3 * sz) div 40"
    by (rule floor_divide_of_int_eq)
  have nn: "\<not> real_of_int (3 * sz) / real_of_int 40 < 0"
    using assms by simp
  have c: "py_int (0.5 * 0.15 * real_of_int sz) = (3 * sz) div 40"
    unfolding e py_int_def using nn c0 by (simp only: if_False)
  have mx: "marker_x sz = sz div 2"
    by (simp only: marker_x_def)
  have my1: "marker_y sz = sz div 2 - py_int (0.5 * 0.15 * real_of_int sz)"
    by (simp only: marker_y_def wave_center_y_def a)
  have my2: "marker_y sz = sz div 2 - (3 * sz) div 40"
    by (simp only: my1 c)
  have at192: "sz = 192 \<longrightarrow> marker_x sz = 96 \<and> marker_y sz = 82"
  proof
    assume h: "sz = 192"
    show "marker_x sz = 96 \<and> marker_y sz = 82"
      using mx my2 unfolding h by simp
  qed
  from mx my1 my2 at192 show ?thesis
    by (intro conjI)
qed

theorem marker_center_witness:
  "(1::int) \<le> 192 \<and> marker_x 192 = 96 \<and> marker_y 192 = 82"
  using marker_center [of 192] by simp

subsection \<open>Amplitude and radius\<close>

text \<open>
  C8, as the script has it. The amplitude is the fixed fraction \<open>0.15\<close> of the size. The
  marker radius is \<open>max(6, size // 40)\<close>: the constant 6 below 280 pixels and the floor
  of a fortieth of the size from 240 pixels on, so it is not a fixed fraction of the
  size.
\<close>

theorem amplitude_and_radius:
  "wave_amplitude sz = 0.15 * real_of_int sz
   \<and> marker_radius sz = max 6 (sz div 40)
   \<and> (sz < 280 \<longrightarrow> marker_radius sz = 6)
   \<and> (240 \<le> sz \<longrightarrow> marker_radius sz = sz div 40)"
proof (intro conjI impI)
  show "wave_amplitude sz = 0.15 * real_of_int sz"
    by (simp add: wave_amplitude_def)
  show "marker_radius sz = max 6 (sz div 40)"
    by (simp only: marker_radius_def)
  show "marker_radius sz = 6" if "sz < 280"
  proof -
    have "sz div 40 \<le> 279 div 40"
      using that by (intro zdiv_mono1) simp_all
    then show ?thesis by (simp add: marker_radius_def)
  qed
  show "marker_radius sz = sz div 40" if "240 \<le> sz"
  proof -
    have "240 div 40 \<le> sz div 40"
      using that by (intro zdiv_mono1) simp_all
    then show ?thesis by (simp add: marker_radius_def)
  qed
qed

theorem amplitude_and_radius_witness:
  "(32::int) < 280 \<and> marker_radius 32 = 6 \<and> (240::int) \<le> 512
   \<and> marker_radius 512 = 512 div 40 \<and> wave_amplitude 512 = 0.15 * 512"
  using amplitude_and_radius [of 32] amplitude_and_radius [of 512] by simp

text \<open>
  C8 as stated fails: sizes 32 and 192 get the same radius 6, so the ratio of radius to
  size differs between them.
\<close>

theorem radius_not_proportional:
  "real_of_int (marker_radius 32) / 32 \<noteq> real_of_int (marker_radius 192) / 192"
  by (simp add: marker_radius_def)

subsection \<open>The wave samples\<close>

lemma normalized_x_eq:
  "normalized_x sz x = 2 * pi * 1.5 * real_of_int x / real_of_int sz"
  by (simp add: normalized_x_def wave_frequency_def)

lemma wave_y_eq:
  "wave_y sz x = real_of_int (sz div 2)
     + sin (2 * pi * 1.5 * real_of_int x / real_of_int sz) * (0.15 * real_of_int sz)"
  by (simp only: wave_y_def wave_center_y_def wave_amplitude_def normalized_x_eq mult.commute [of "real_of_int sz" "0.15"])

lemma sqrt2_lower: "4 / 3 \<le> sqrt 2"
  by (rule real_le_rsqrt) (simp add: power2_eq_square)

lemma sin_3pi5_lower: "2 / 3 \<le> sin (3 * pi / 5)"
proof -
  have e: "pi - 2 * pi / 5 = 3 * pi / 5" by simp
  have "sin (3 * pi / 5) = sin (2 * pi / 5)"
    using sin_pi_minus [of "2 * pi / 5"] by (simp only: e)
  moreover have "sin (pi / 4) \<le> sin (2 * pi / 5)"
  proof (rule sin_monotone_2pi_le)
    show "- (pi / 2) \<le> pi / 4" using pi_gt_zero by linarith
    show "pi / 4 \<le> 2 * pi / 5" using pi_gt_zero by linarith
    show "2 * pi / 5 \<le> pi / 2" using pi_gt_zero by linarith
  qed
  moreover have "2 / 3 \<le> sin (pi / 4)"
    using sqrt2_lower by (simp add: sin_45)
  ultimately show ?thesis by linarith
qed

lemma py_int_floor: "0 \<le> r \<Longrightarrow> py_int r = \<lfloor>r\<rfloor>"
  by (simp add: py_int_def)

lemma py_int_between:
  "0 \<le> r \<Longrightarrow> real_of_int n \<le> r \<Longrightarrow> r < real_of_int n + 1 \<Longrightarrow> py_int r = n"
  by (simp add: py_int_def floor_unique)

text \<open>
  C1 as stated fails for odd sizes: the script centres the wave on \<open>size // 2\<close>, not on
  \<open>size / 2\<close>. At size 5, column 1, the script's sample is 2; the formula with the true
  quotient gives 3.
\<close>

theorem wave_center_is_floor_division:
  "wave_points 5 ! 1 = (1, 2) \<and> py_int (spec_wave_y 5 1) = 3
   \<and> snd (wave_points 5 ! 1) \<noteq> py_int (spec_wave_y 5 1)"
proof -
  let ?s = "sin (3 * pi / 5)"
  have lo: "2 / 3 \<le> ?s" by (rule sin_3pi5_lower)
  have hi: "?s < 4 / 3" using sin_le_one [of "3 * pi / 5"] by linarith
  have w: "wave_y 5 1 = 2 + ?s * 0.75"
    by (simp add: wave_y_eq)
  have s: "spec_wave_y 5 1 = 2.5 + ?s * 0.75"
    by (simp add: spec_wave_y_def)
  have a: "py_int (wave_y 5 1) = 2"
    unfolding w using lo hi by (intro py_int_between) simp_all
  have b: "py_int (spec_wave_y 5 1) = 3"
    unfolding s using lo hi by (intro py_int_between) simp_all
  have n: "wave_points 5 ! 1 = (1, py_int (wave_y 5 1))"
    using wave_points_nth [of 1 5] by simp
  show ?thesis
    using a b n by simp
qed

subsection \<open>Rounding\<close>

text \<open>
  Rounding to the nearest double changes a number by at most the fraction \<open>2^-53\<close> of its
  magnitude. Carried through the operations of the loop body, this bounds the distance
  between the double \<open>float_wave_y\<close> and the exact value \<open>wave_y\<close>.
\<close>

lemma round_half_even_err: "\<bar>real_of_int (round_half_even r) - r\<bar> \<le> 1 / 2"
proof -
  have "real_of_int \<lfloor>r\<rfloor> \<le> r" "r < real_of_int \<lfloor>r\<rfloor> + 1" by linarith+
  then show ?thesis
    by (simp add: round_half_even_def Let_def)
qed

lemma fl_err: "\<bar>fl r - r\<bar> \<le> \<bar>r\<bar> / 2 ^ 53"
proof (cases "r = 0")
  case True
  then show ?thesis by (simp add: fl_def)
next
  case False
  define e where "e = \<lfloor>log 2 \<bar>r\<bar>\<rfloor>"
  define p where "p = 2 powr (real_of_int e - 52)"
  have p0: "0 < p" by (simp add: p_def)
  have f: "fl r = real_of_int (round_half_even (r / p)) * p"
    using False by (simp add: fl_def e_def p_def Let_def)
  have "\<bar>real_of_int (round_half_even (r / p)) - r / p\<bar> \<le> 1 / 2"
    by (rule round_half_even_err)
  then have "\<bar>real_of_int (round_half_even (r / p)) - r / p\<bar> * p \<le> 1 / 2 * p"
    using p0 by (intro mult_right_mono) simp_all
  moreover have "\<bar>real_of_int (round_half_even (r / p)) - r / p\<bar> * p
      = \<bar>real_of_int (round_half_even (r / p)) * p - r\<bar>"
  proof -
    have "\<bar>real_of_int (round_half_even (r / p)) - r / p\<bar> * p
        = \<bar>(real_of_int (round_half_even (r / p)) - r / p) * p\<bar>"
      using p0 by (simp add: abs_mult)
    also have "(real_of_int (round_half_even (r / p)) - r / p) * p
        = real_of_int (round_half_even (r / p)) * p - r"
      using p0 by (simp add: algebra_simps)
    finally show ?thesis .
  qed
  ultimately have a: "\<bar>fl r - r\<bar> \<le> p / 2"
    by (simp add: f)
  have "real_of_int e \<le> log 2 \<bar>r\<bar>" by (simp add: e_def)
  then have "2 powr real_of_int e \<le> 2 powr log 2 \<bar>r\<bar>"
    by (intro powr_mono) simp_all
  also have "\<dots> = \<bar>r\<bar>" using False by simp
  finally have b: "2 powr real_of_int e \<le> \<bar>r\<bar>" .
  have "p = 2 powr real_of_int e / 2 powr 52"
    by (simp only: p_def powr_diff)
  also have "(2::real) powr 52 = 2 ^ 52" by simp
  finally have c: "p = 2 powr real_of_int e / 2 ^ 52" .
  have "p / 2 = 2 powr real_of_int e / 2 ^ 53" by (simp add: c)
  also have "\<dots> \<le> \<bar>r\<bar> / 2 ^ 53"
    using b by (intro divide_right_mono) simp_all
  finally show ?thesis using a by linarith
qed

lemma fl_binade:
  assumes "2 powr real_of_int e \<le> \<bar>r\<bar>" "\<bar>r\<bar> < 2 powr (real_of_int e + 1)"
  shows "fl r = real_of_int (round_half_even (r / 2 powr (real_of_int e - 52)))
                  * 2 powr (real_of_int e - 52)"
proof -
  have "0 < 2 powr real_of_int e" by simp
  with assms(1) have r0: "0 < \<bar>r\<bar>" by linarith
  have "\<lfloor>log 2 \<bar>r\<bar>\<rfloor> = e"
  proof (rule floor_unique)
    show "real_of_int e \<le> log 2 \<bar>r\<bar>"
      using assms(1) r0 by (simp add: le_log_iff)
    show "log 2 \<bar>r\<bar> < real_of_int e + 1"
      using assms(2) r0 by (simp add: log_less_iff)
  qed
  with r0 show ?thesis by (simp add: fl_def Let_def)
qed

text \<open>Three roundings worked out: a third, one, and two ties.\<close>

lemma fl_third: "fl (1 / 3) = 6004799503160661 / 2 ^ 54"
  using fl_binade [of "- 2" "1 / 3"] by (simp add: round_half_even_def Let_def powr_minus)

lemma fl_one: "fl 1 = 1"
  using fl_binade [of 0 1] by (simp add: round_half_even_def Let_def powr_minus)

lemma fl_tie: "fl (2 ^ 53 + 1) = 2 ^ 53 \<and> fl (2 ^ 53 + 3) = 2 ^ 53 + 4"
  using fl_binade [of 53 "2 ^ 53 + 1"] fl_binade [of 53 "2 ^ 53 + 3"]
  by (simp add: round_half_even_def Let_def)

lemma mul_err:
  fixes a b :: real
  assumes "\<bar>a - A\<bar> \<le> ea" "\<bar>b - B\<bar> \<le> eb" "\<bar>A\<bar> \<le> MA" "\<bar>B\<bar> \<le> MB"
  shows "\<bar>a * b - A * B\<bar> \<le> ea * (MB + eb) + MA * eb"
    and "\<bar>a * b\<bar> \<le> (MA + ea) * (MB + eb)"
proof -
  have ea0: "0 \<le> ea" using assms(1) by linarith
  have eb0: "0 \<le> eb" using assms(2) by linarith
  have ma0: "0 \<le> MA" using assms(3) by linarith
  have b: "\<bar>b\<bar> \<le> MB + eb" using assms(2,4) by linarith
  have a: "\<bar>a\<bar> \<le> MA + ea" using assms(1,3) by linarith
  have "a * b - A * B = (a - A) * b + A * (b - B)" by (simp add: algebra_simps)
  then have "\<bar>a * b - A * B\<bar> \<le> \<bar>(a - A) * b\<bar> + \<bar>A * (b - B)\<bar>"
    by (simp only: abs_triangle_ineq)
  also have "\<bar>(a - A) * b\<bar> = \<bar>a - A\<bar> * \<bar>b\<bar>" by (rule abs_mult)
  also have "\<bar>A * (b - B)\<bar> = \<bar>A\<bar> * \<bar>b - B\<bar>" by (rule abs_mult)
  also have "\<bar>a - A\<bar> * \<bar>b\<bar> + \<bar>A\<bar> * \<bar>b - B\<bar> \<le> ea * (MB + eb) + MA * eb"
    using assms(1,2,3) b ea0 ma0 by (intro add_mono mult_mono) simp_all
  finally show "\<bar>a * b - A * B\<bar> \<le> ea * (MB + eb) + MA * eb" .
  have "\<bar>a * b\<bar> = \<bar>a\<bar> * \<bar>b\<bar>" by (rule abs_mult)
  also have "\<dots> \<le> (MA + ea) * (MB + eb)"
    using a b ea0 ma0 by (intro mult_mono) simp_all
  finally show "\<bar>a * b\<bar> \<le> (MA + ea) * (MB + eb)" .
qed

lemma fl_mul_err:
  assumes "\<bar>a - A\<bar> \<le> ea" "\<bar>b - B\<bar> \<le> eb" "\<bar>A\<bar> \<le> MA" "\<bar>B\<bar> \<le> MB"
  shows "\<bar>fl (a * b) - A * B\<bar> \<le> ea * (MB + eb) + MA * eb + (MA + ea) * (MB + eb) / 2 ^ 53"
proof -
  note m = mul_err [OF assms]
  have "\<bar>fl (a * b) - a * b\<bar> \<le> \<bar>a * b\<bar> / 2 ^ 53" by (rule fl_err)
  also have "\<dots> \<le> (MA + ea) * (MB + eb) / 2 ^ 53"
    using m(2) by (intro divide_right_mono) simp_all
  finally have "\<bar>fl (a * b) - a * b\<bar> \<le> (MA + ea) * (MB + eb) / 2 ^ 53" .
  with m(1) show ?thesis by linarith
qed

lemma fl_add_err:
  assumes "\<bar>a - A\<bar> \<le> ea" "\<bar>b - B\<bar> \<le> eb" "\<bar>A\<bar> \<le> MA" "\<bar>B\<bar> \<le> MB"
  shows "\<bar>fl (a + b) - (A + B)\<bar> \<le> ea + eb + (MA + ea + MB + eb) / 2 ^ 53"
proof -
  have s: "\<bar>a + b\<bar> \<le> MA + ea + MB + eb" using assms by linarith
  have "\<bar>fl (a + b) - (a + b)\<bar> \<le> \<bar>a + b\<bar> / 2 ^ 53" by (rule fl_err)
  also have "\<dots> \<le> (MA + ea + MB + eb) / 2 ^ 53"
    using s by (intro divide_right_mono) simp_all
  finally have "\<bar>fl (a + b) - (a + b)\<bar> \<le> (MA + ea + MB + eb) / 2 ^ 53" .
  with assms(1,2) show ?thesis by linarith
qed

lemma sin_lipschitz: "\<bar>sin a - sin b\<bar> \<le> \<bar>a - b\<bar>" for a b :: real
proof -
  have "\<bar>sin a - sin b\<bar> = 2 * \<bar>sin ((a - b) / 2)\<bar> * \<bar>cos ((a + b) / 2)\<bar>"
    by (simp add: sin_diff_sin abs_mult)
  also have "\<dots> \<le> 2 * \<bar>(a - b) / 2\<bar> * 1"
    by (intro mult_mono abs_sin_x_le_abs_x) simp_all
  also have "\<dots> = \<bar>a - b\<bar>" by simp
  finally show ?thesis .
qed


lemma float_normalized_x_err:
  assumes "0 \<le> x" "x < sz"
  shows "\<bar>float_normalized_x sz x - normalized_x sz x\<bar> \<le> 68 / 2 ^ 53"
proof -
  define q0 where "q0 = real_of_int x / real_of_int sz"
  have q0: "0 \<le> q0" "q0 \<le> 1" using assms by (simp_all add: q0_def)
  have m0: "\<bar>q0\<bar> \<le> 1" using q0 by simp
  have s1: "\<bar>fl q0 - q0\<bar> \<le> 1 / 2 ^ 53"
  proof -
    have "\<bar>fl q0 - q0\<bar> \<le> \<bar>q0\<bar> / 2 ^ 53" by (rule fl_err)
    also have "\<dots> \<le> 1 / 2 ^ 53" using m0 by (intro divide_right_mono) simp_all
    finally show ?thesis .
  qed
  have two: "\<bar>(2::real) - 2\<bar> \<le> 0" "\<bar>2::real\<bar> \<le> 2" by simp_all
  have s2: "\<bar>fl (fl q0 * 2) - q0 * 2\<bar> \<le> 5 / 2 ^ 53"
    by (rule order_trans [OF fl_mul_err [OF s1 two(1) m0 two(2)]]) simp
  have m2: "\<bar>q0 * 2\<bar> \<le> 2" using q0 by simp
  have p2: "\<bar>pi\<bar> \<le> 4" using pi_less_4 pi_gt_zero by simp
  have p1: "\<bar>fl pi - pi\<bar> \<le> 4 / 2 ^ 53"
  proof -
    have "\<bar>fl pi - pi\<bar> \<le> \<bar>pi\<bar> / 2 ^ 53" by (rule fl_err)
    also have "\<dots> \<le> 4 / 2 ^ 53" using p2 by (intro divide_right_mono) simp_all
    finally show ?thesis .
  qed
  have s3: "\<bar>fl (fl (fl q0 * 2) * fl pi) - q0 * 2 * pi\<bar> \<le> 37 / 2 ^ 53"
    by (rule order_trans [OF fl_mul_err [OF s2 p1 m2 p2]]) simp
  have m3: "\<bar>q0 * 2 * pi\<bar> \<le> 8"
  proof -
    have "\<bar>q0 * 2 * pi\<bar> = \<bar>q0 * 2\<bar> * \<bar>pi\<bar>" by (rule abs_mult)
    also have "\<dots> \<le> 2 * 4" using m2 p2 by (intro mult_mono) simp_all
    finally show ?thesis by simp
  qed
  have c: "\<bar>(1.5::real) - 1.5\<bar> \<le> 0" "\<bar>1.5::real\<bar> \<le> 1.5" by simp_all
  have s4: "\<bar>fl (fl (fl (fl q0 * 2) * fl pi) * 1.5) - q0 * 2 * pi * 1.5\<bar> \<le> 68 / 2 ^ 53"
    by (rule order_trans [OF fl_mul_err [OF s3 c(1) m3 c(2)]]) simp
  have e: "normalized_x sz x = q0 * 2 * pi * 1.5"
    by (simp add: normalized_x_def wave_frequency_def q0_def)
  have f: "float_normalized_x sz x = fl (fl (fl (fl q0 * 2) * fl pi) * 1.5)"
    by (simp only: float_normalized_x_def q0_def)
  show ?thesis unfolding e f by (rule s4)
qed

lemma float_wave_amplitude_err:
  assumes "0 \<le> sz"
  shows "\<bar>float_wave_amplitude sz - wave_amplitude sz\<bar> \<le> real_of_int sz / 2 ^ 53"
proof -
  define S where "S = real_of_int sz"
  have S0: "0 \<le> S" using assms by (simp add: S_def)
  have a: "\<bar>fl S - S\<bar> \<le> S / 2 ^ 53"
    using fl_err [of S] S0 by simp
  have ma: "\<bar>S\<bar> \<le> S" using S0 by simp
  have b: "\<bar>fl 0.15 - 0.15\<bar> \<le> 0.15 / 2 ^ 53"
    using fl_err [of "0.15"] by simp
  have mb: "\<bar>0.15::real\<bar> \<le> 0.15" by simp
  have "\<bar>fl (fl S * fl 0.15) - S * 0.15\<bar> \<le> S / 2 ^ 53"
    by (rule order_trans [OF fl_mul_err [OF a b ma mb]]) (use S0 in \<open>simp add: field_simps\<close>)
  then show ?thesis
    by (simp only: float_wave_amplitude_def wave_amplitude_def S_def)
qed

lemma float_wave_y_err:
  assumes sz: "1 \<le> sz" and x: "0 \<le> x" "x < sz"
    and ms: "\<And>t. \<bar>msin t - sin t\<bar> \<le> 1 / 2 ^ 52"
  shows "\<bar>float_wave_y msin sz x - wave_y sz x\<bar> \<le> real_of_int sz / 2 ^ 48"
proof -
  define S where "S = real_of_int sz"
  have S1: "1 \<le> S" using sz by (simp add: S_def)
  let ?nf = "float_normalized_x sz x" and ?n = "normalized_x sz x"
  let ?af = "float_wave_amplitude sz" and ?a = "wave_amplitude sz"
  let ?c = "real_of_int (wave_center_y sz)"
  have n: "\<bar>?nf - ?n\<bar> \<le> 68 / 2 ^ 53"
    using x by (rule float_normalized_x_err)
  have sn: "\<bar>msin ?nf - sin ?n\<bar> \<le> 70 / 2 ^ 53"
  proof -
    have "\<bar>msin ?nf - sin ?n\<bar> \<le> \<bar>msin ?nf - sin ?nf\<bar> + \<bar>sin ?nf - sin ?n\<bar>"
      by linarith
    also have "\<dots> \<le> 1 / 2 ^ 52 + \<bar>?nf - ?n\<bar>"
      by (intro add_mono ms sin_lipschitz)
    also have "\<dots> \<le> 1 / 2 ^ 52 + 68 / 2 ^ 53"
      using n by simp
    finally show ?thesis by simp
  qed
  have ms1: "\<bar>sin ?n\<bar> \<le> 1" by simp
  have am: "\<bar>?af - ?a\<bar> \<le> S / 2 ^ 53"
    unfolding S_def using sz by (intro float_wave_amplitude_err) simp
  have ma: "\<bar>?a\<bar> \<le> 0.15 * S"
    using S1 by (simp add: wave_amplitude_def S_def)
  have pr: "\<bar>fl (msin ?nf * ?af) - sin ?n * ?a\<bar> \<le> 12 * S / 2 ^ 53"
    by (rule order_trans [OF fl_mul_err [OF sn am ms1 ma]]) (use S1 in \<open>simp add: field_simps\<close>)
  have mp: "\<bar>sin ?n * ?a\<bar> \<le> 0.15 * S"
  proof -
    have "\<bar>sin ?n * ?a\<bar> = \<bar>sin ?n\<bar> * \<bar>?a\<bar>" by (rule abs_mult)
    also have "\<dots> \<le> 1 * (0.15 * S)"
      using ms1 ma by (intro mult_mono) simp_all
    finally show ?thesis by simp
  qed
  have cb: "0 \<le> ?c" "?c \<le> S / 2"
  proof -
    have "0 \<le> sz div 2" "2 * (sz div 2) \<le> sz" using sz by presburger+
    then have "0 \<le> real_of_int (sz div 2)" "real_of_int (2 * (sz div 2)) \<le> real_of_int sz"
      by (simp_all only: of_int_le_iff of_int_0_le_iff)
    then show "0 \<le> ?c" "?c \<le> S / 2"
      by (simp_all add: wave_center_y_def S_def)
  qed
  have mc: "\<bar>?c\<bar> \<le> S / 2" using cb by simp
  have ce: "\<bar>fl ?c - ?c\<bar> \<le> S / 2 ^ 54"
  proof -
    have "\<bar>fl ?c - ?c\<bar> \<le> \<bar>?c\<bar> / 2 ^ 53" by (rule fl_err)
    also have "\<dots> \<le> (S / 2) / 2 ^ 53" using mc by (intro divide_right_mono) simp_all
    finally show ?thesis by simp
  qed
  have "\<bar>fl (fl ?c + fl (msin ?nf * ?af)) - (?c + sin ?n * ?a)\<bar> \<le> S / 2 ^ 48"
    by (rule order_trans [OF fl_add_err [OF ce pr mc mp]]) (use S1 in \<open>simp add: field_simps\<close>)
  then show ?thesis
    by (simp only: float_wave_y_def wave_y_def S_def)
qed


lemma float_wave_loop_eq:
  "float_wave_loop msin sz x pts
     = pts @ map (\<lambda>i. (i, py_int (float_wave_y msin sz i))) [x..sz - 1]"
proof (induction msin sz x pts rule: float_wave_loop.induct)
  case (1 msin sz x points)
  show ?case
  proof (cases "x < sz")
    case True
    have u: "[x..sz - 1] = x # [x + 1..sz - 1]"
      using True by (intro upto_rec1) simp
    have "float_wave_loop msin sz x points
        = float_wave_loop msin sz (x + 1) (points @ [(x, py_int (float_wave_y msin sz x))])"
      using True by (subst float_wave_loop.simps) simp
    also have "\<dots> = (points @ [(x, py_int (float_wave_y msin sz x))])
                     @ map (\<lambda>i. (i, py_int (float_wave_y msin sz i))) [x + 1..sz - 1]"
      using True by (rule "1")
    also have "\<dots> = points @ map (\<lambda>i. (i, py_int (float_wave_y msin sz i))) [x..sz - 1]"
      by (simp only: u list.map append_assoc append_Cons append_Nil)
    finally show ?thesis .
  next
    case False
    then have "float_wave_loop msin sz x points = points"
      by (subst float_wave_loop.simps) simp
    with False show ?thesis by simp
  qed
qed

lemma float_wave_points_eq:
  "float_wave_points msin sz = map (\<lambda>i. (i, py_int (float_wave_y msin sz i))) [0..sz - 1]"
  by (simp add: float_wave_points_def float_wave_loop_eq)

lemma float_wave_points_nth:
  "0 \<le> x \<Longrightarrow> x < sz \<Longrightarrow>
   float_wave_points msin sz ! nat x = (x, py_int (float_wave_y msin sz x))"
  by (simp add: float_wave_points_eq)

lemma py_int_mono: "a \<le> b \<Longrightarrow> py_int a \<le> py_int b"
proof -
  assume ab: "a \<le> b"
  show ?thesis
  proof (cases "b < 0")
    case True
    with ab have "a < 0" by linarith
    with True ab show ?thesis by (simp add: py_int_def ceiling_mono)
  next
    case False
    show ?thesis
    proof (cases "a < 0")
      case True
      then have "\<lceil>a\<rceil> \<le> 0" by (simp add: ceiling_le_zero)
      moreover have "0 \<le> \<lfloor>b\<rfloor>" using False by simp
      moreover have "py_int a = \<lceil>a\<rceil>" using True by (simp add: py_int_def)
      moreover have "py_int b = \<lfloor>b\<rfloor>" using False by (simp add: py_int_def)
      ultimately show ?thesis by linarith
    next
      case a: False
      with False ab show ?thesis by (simp add: py_int_def floor_mono)
    qed
  qed
qed

lemma py_int_step: "py_int (b + 1) \<le> py_int b + 1 \<and> py_int b - 1 \<le> py_int (b - 1)"
proof -
  have u: "py_int (r + 1) \<le> py_int r + 1" for r
  proof (cases "r < - 1")
    case True
    then show ?thesis by (simp add: py_int_def)
  next
    case False
    show ?thesis
    proof (cases "r < 0")
      case True
      have "py_int (r + 1) = \<lfloor>r + 1\<rfloor>" using False by (simp add: py_int_def)
      moreover have "\<lfloor>r + 1\<rfloor> = 0" using True False by (intro floor_unique) simp_all
      moreover have "py_int r = \<lceil>r\<rceil>" using True by (simp add: py_int_def)
      moreover have "- 1 \<le> \<lceil>r\<rceil>" using False by (simp add: le_ceiling_iff)
      ultimately show ?thesis by linarith
    next
      case r: False
      then show ?thesis by (simp add: py_int_def)
    qed
  qed
  from u [of "b - 1"] have "py_int b - 1 \<le> py_int (b - 1)" by simp
  with u [of b] show ?thesis by simp
qed

lemma py_int_near:
  assumes "\<bar>a - b\<bar> \<le> 1 / 2"
  shows "\<bar>py_int a - py_int b\<bar> \<le> 1"
proof -
  have "a \<le> b + 1" "b - 1 \<le> a" using assms by linarith+
  then have "py_int a \<le> py_int (b + 1)" "py_int (b - 1) \<le> py_int a"
    by (simp_all only: py_int_mono)
  with py_int_step [of b] show ?thesis by linarith
qed

lemma py_int_stable:
  assumes "\<bar>a - b\<bar> \<le> e" "0 \<le> n" "real_of_int n + e \<le> b" "b + e < real_of_int n + 1"
  shows "py_int a = n \<and> py_int b = n"
proof -
  have e0: "0 \<le> e" using assms(1) by linarith
  have n0: "0 \<le> real_of_int n" using assms(2) by simp
  have "py_int a = n"
    using assms e0 n0 by (intro py_int_between) linarith+
  moreover have "py_int b = n"
    using assms e0 n0 by (intro py_int_between) linarith+
  ultimately show ?thesis by simp
qed

lemma rounded_sin_err: "\<bar>rounded_sin t - sin t\<bar> \<le> 1 / 2 ^ 52"
proof -
  have "\<bar>fl (sin t) - sin t\<bar> \<le> \<bar>sin t\<bar> / 2 ^ 53" by (rule fl_err)
  also have "\<dots> \<le> 1 / 2 ^ 53" by (intro divide_right_mono) simp_all
  also have "\<dots> \<le> 1 / 2 ^ 52" by simp
  finally show ?thesis by (simp only: rounded_sin_def)
qed

lemma wave_y_5_1: "5 / 2 \<le> wave_y 5 1 \<and> wave_y 5 1 \<le> 11 / 4"
proof -
  let ?s = "sin (3 * pi / 5)"
  have lo: "2 / 3 \<le> ?s" by (rule sin_3pi5_lower)
  have hi: "?s < 4 / 3" using sin_le_one [of "3 * pi / 5"] by linarith
  have hi1: "?s * 3 \<le> 3" using sin_le_one [of "3 * pi / 5"] by linarith
  have w: "wave_y 5 1 = 2 + ?s * 0.75"
    by (simp add: wave_y_eq)
  show ?thesis unfolding w using lo hi1 by simp
qed

text \<open>
  C1, as the script has it. For every size of at least 1 the path has one sample per
  column \<open>0, \<dots>, size - 1\<close>, in order. The sample at column \<open>x\<close> is the truncation of the
  double the script computes for \<open>size // 2 + sin(2 pi * 1.5 * x / size) * (0.15 * size)\<close>,
  every operation rounded to binary64 and the library sine within \<open>2^-52\<close> of the true
  sine. That double lies within \<open>size * 2^-48\<close> of the exact value of the expression. So
  the sample is the truncation of the exact value, the sample of \<open>wave_points\<close>, wherever
  the exact value keeps that distance from the integers on both sides, and for sizes up
  to \<open>2^47\<close> it is never more than 1 away from it. The argument of the sine runs through
  \<open>[0, 1.5 * 2 pi)\<close>: one and a half oscillations.
\<close>

theorem wave_samples:
  assumes "1 \<le> sz" and "\<And>t. \<bar>msin t - sin t\<bar> \<le> 1 / 2 ^ 52"
  shows "length (float_wave_points msin sz) = nat sz
       \<and> map fst (float_wave_points msin sz) = [0..sz - 1]
       \<and> (\<forall>x. 0 \<le> x \<and> x < sz \<longrightarrow>
            float_wave_points msin sz ! nat x = (x, py_int (float_wave_y msin sz x))
            \<and> wave_points sz ! nat x = (x, py_int (wave_y sz x))
            \<and> wave_y sz x = real_of_int (sz div 2)
                + sin (2 * pi * 1.5 * real_of_int x / real_of_int sz) * (0.15 * real_of_int sz)
            \<and> \<bar>float_wave_y msin sz x - wave_y sz x\<bar> \<le> real_of_int sz / 2 ^ 48
            \<and> (\<forall>n. 0 \<le> n \<and> real_of_int n + real_of_int sz / 2 ^ 48 \<le> wave_y sz x
                    \<and> wave_y sz x + real_of_int sz / 2 ^ 48 < real_of_int n + 1 \<longrightarrow>
                  snd (float_wave_points msin sz ! nat x) = n \<and> py_int (wave_y sz x) = n)
            \<and> (sz \<le> 2 ^ 47 \<longrightarrow>
                  \<bar>snd (float_wave_points msin sz ! nat x) - py_int (wave_y sz x)\<bar> \<le> 1)
            \<and> 0 \<le> 2 * pi * 1.5 * real_of_int x / real_of_int sz
            \<and> 2 * pi * 1.5 * real_of_int x / real_of_int sz < 1.5 * (2 * pi))"
proof (intro conjI allI impI)
  show "length (float_wave_points msin sz) = nat sz"
    by (simp add: float_wave_points_eq)
  show "map fst (float_wave_points msin sz) = [0..sz - 1]"
    by (simp add: float_wave_points_eq comp_def)
next
  fix x assume x: "0 \<le> x \<and> x < sz"
  have nth: "float_wave_points msin sz ! nat x = (x, py_int (float_wave_y msin sz x))"
    using x by (simp only: float_wave_points_nth)
  have err: "\<bar>float_wave_y msin sz x - wave_y sz x\<bar> \<le> real_of_int sz / 2 ^ 48"
    using assms(1) x assms(2) by (intro float_wave_y_err) simp_all
  show "float_wave_points msin sz ! nat x = (x, py_int (float_wave_y msin sz x))"
    by (rule nth)
  show "wave_points sz ! nat x = (x, py_int (wave_y sz x))"
    using x by (simp only: wave_points_nth)
  show "wave_y sz x = real_of_int (sz div 2)
      + sin (2 * pi * 1.5 * real_of_int x / real_of_int sz) * (0.15 * real_of_int sz)"
    by (rule wave_y_eq)
  show "\<bar>float_wave_y msin sz x - wave_y sz x\<bar> \<le> real_of_int sz / 2 ^ 48"
    by (rule err)
  show "\<bar>snd (float_wave_points msin sz ! nat x) - py_int (wave_y sz x)\<bar> \<le> 1"
    if "sz \<le> 2 ^ 47"
  proof -
    have "real_of_int sz \<le> real_of_int (2 ^ 47)"
      using that by (simp only: of_int_le_iff)
    then have "real_of_int sz / 2 ^ 48 \<le> 1 / 2" by simp
    with err have "\<bar>float_wave_y msin sz x - wave_y sz x\<bar> \<le> 1 / 2" by linarith
    then show ?thesis unfolding nth snd_conv by (rule py_int_near)
  qed
  have p: "0 < real_of_int sz" using assms(1) by simp
  have q: "0 \<le> real_of_int x" "real_of_int x < real_of_int sz" using x by simp_all
  have r: "0 \<le> real_of_int x / real_of_int sz" "real_of_int x / real_of_int sz < 1"
    using p q by simp_all
  have t: "2 * pi * 1.5 * real_of_int x / real_of_int sz
             = 1.5 * (2 * pi) * (real_of_int x / real_of_int sz)"
    by simp
  show "0 \<le> 2 * pi * 1.5 * real_of_int x / real_of_int sz"
    unfolding t using r(1) pi_gt_zero by (intro mult_nonneg_nonneg) simp_all
  have "1.5 * (2 * pi) * (real_of_int x / real_of_int sz) < 1.5 * (2 * pi) * 1"
    using r(2) pi_gt_zero by (intro mult_strict_left_mono) simp_all
  then show "2 * pi * 1.5 * real_of_int x / real_of_int sz < 1.5 * (2 * pi)"
    unfolding t by simp
  fix n
  assume n: "0 \<le> n \<and> real_of_int n + real_of_int sz / 2 ^ 48 \<le> wave_y sz x
                    \<and> wave_y sz x + real_of_int sz / 2 ^ 48 < real_of_int n + 1"
  have "py_int (float_wave_y msin sz x) = n \<and> py_int (wave_y sz x) = n"
    using err n by (intro py_int_stable [where e = "real_of_int sz / 2 ^ 48"]) simp_all
  then show "snd (float_wave_points msin sz ! nat x) = n" "py_int (wave_y sz x) = n"
    unfolding nth snd_conv by simp_all
qed

theorem wave_samples_witness:
  "(1::int) \<le> 5 \<and> (0::int) \<le> 1 \<and> (1::int) < 5 \<and> (5::int) \<le> 2 ^ 47
   \<and> length (float_wave_points rounded_sin 5) = 5
   \<and> float_wave_points rounded_sin 5 ! 1 = (1, 2)
   \<and> \<bar>snd (float_wave_points rounded_sin 5 ! 1) - py_int (wave_y 5 1)\<bar> \<le> 1"
proof -
  have h: "(1::int) \<le> 5" by simp
  have x: "(0::int) \<le> 1 \<and> (1::int) < 5" by simp
  have m: "(5::int) \<le> 2 ^ 47" by simp
  have b: "(0::int) \<le> 2 \<and> real_of_int 2 + real_of_int 5 / 2 ^ 48 \<le> wave_y 5 1
      \<and> wave_y 5 1 + real_of_int 5 / 2 ^ 48 < real_of_int 2 + 1"
    using wave_y_5_1 by simp
  note t = wave_samples [of 5 rounded_sin, OF h rounded_sin_err]
  note c = t [THEN conjunct2, THEN conjunct2, THEN spec, THEN mp, OF x]
  from t have l: "length (float_wave_points rounded_sin 5) = 5" by simp
  from c have f: "fst (float_wave_points rounded_sin 5 ! nat 1) = 1" by simp
  note d = c [THEN conjunct2, THEN conjunct2, THEN conjunct2, THEN conjunct2]
  from d [THEN conjunct1, THEN spec, THEN mp, OF b]
  have s: "snd (float_wave_points rounded_sin 5 ! nat 1) = 2" by (rule conjunct1)
  from d [THEN conjunct2, THEN conjunct1, THEN mp, OF m]
  have w: "\<bar>snd (float_wave_points rounded_sin 5 ! nat 1) - py_int (wave_y 5 1)\<bar> \<le> 1" .
  from s f have p: "float_wave_points rounded_sin 5 ! nat 1 = (1, 2)"
    by (simp add: prod_eq_iff)
  from l p w show ?thesis by simp
qed

subsection \<open>The first peak\<close>

text \<open>
  C7 as stated fails: for size 192 the column \<open>size / (2 * 1.5) = 64\<close> is half a period,
  where the sine term is 0; it is 1 at column 32.
\<close>

theorem half_period_is_no_peak:
  "sin (normalized_x 192 64) = 0 \<and> sin (normalized_x 192 32) = 1
   \<and> sin (normalized_x 192 64) < sin (normalized_x 192 32)"
  by (simp add: normalized_x_def wave_frequency_def)

lemma wave_192_0: "wave_points 192 ! 0 = (0, 96)"
proof -
  have "wave_y 192 0 = 96" by (simp add: wave_y_eq)
  then have "py_int (wave_y 192 0) = 96" by (simp add: py_int_def)
  then show ?thesis using wave_points_nth [of 0 192] by simp
qed

lemma wave_192_32: "wave_points 192 ! 32 = (32, 124)"
proof -
  have e: "(2 * pi * 1.5 * real_of_int 32 / real_of_int 192) = pi / 2" by simp
  have "wave_y 192 32 = 124.8" unfolding wave_y_eq e by simp
  then have "py_int (wave_y 192 32) = 124"
    by (intro py_int_between) simp_all
  then show ?thesis using wave_points_nth [of 32 192] by simp
qed

lemma sin_before_peak:
  assumes "0 \<le> x" "x < 32"
  shows "sin (normalized_x 192 x) < 1"
proof -
  have e: "normalized_x 192 x = pi * (real_of_int x / 64)"
    by (simp add: normalized_x_eq)
  have a: "0 \<le> real_of_int x / 64" "real_of_int x / 64 < 1 / 2"
    using assms by simp_all
  have lo: "0 \<le> pi * (real_of_int x / 64)"
    using a(1) pi_gt_zero by (intro mult_nonneg_nonneg) simp_all
  have "pi * (real_of_int x / 64) < pi * (1 / 2)"
    using a(2) pi_gt_zero by (intro mult_strict_left_mono) simp_all
  then have hi: "pi * (real_of_int x / 64) < pi / 2" by simp
  have "sin (pi * (real_of_int x / 64)) < sin (pi / 2)"
  proof (rule sin_monotone_2pi)
    show "- (pi / 2) \<le> pi * (real_of_int x / 64)" using lo pi_gt_zero by linarith
    show "pi * (real_of_int x / 64) < pi / 2" by (rule hi)
    show "pi / 2 \<le> pi / 2" by simp
  qed
  then show ?thesis unfolding e by simp
qed

text \<open>
  C7, as the script has it. For size 192 the sample at column 0 is 96, and the sine term
  reaches its first peak at column \<open>size / (4 * 1.5) = 32\<close>, a quarter period: it is 1
  there, below 1 at every earlier column and never above 1. The sample drawn at that
  column is 124.
\<close>

theorem first_peak:
  "snd (wave_points 192 ! 0) = 96
   \<and> (32::real) = 192 / (4 * 1.5)
   \<and> sin (normalized_x 192 32) = 1
   \<and> snd (wave_points 192 ! 32) = 124
   \<and> (\<forall>x. 0 \<le> x \<and> x < 192 \<longrightarrow> sin (normalized_x 192 x) \<le> 1)
   \<and> (\<forall>x. 0 \<le> x \<and> x < 32 \<longrightarrow> sin (normalized_x 192 x) < 1)"
proof (intro conjI allI impI)
  show "snd (wave_points 192 ! 0) = 96" by (simp add: wave_192_0)
  show "(32::real) = 192 / (4 * 1.5)" by simp
  show "sin (normalized_x 192 32) = 1" by (simp add: normalized_x_def wave_frequency_def)
  show "snd (wave_points 192 ! 32) = 124" by (simp add: wave_192_32)
  show "sin (normalized_x 192 x) \<le> 1" for x by (rule sin_le_one)
  show "sin (normalized_x 192 x) < 1" if "0 \<le> x \<and> x < 32" for x
    using that by (intro sin_before_peak) simp_all
qed

theorem first_peak_witness:
  "(0::int) \<le> 31 \<and> (31::int) < 32 \<and> sin (normalized_x 192 31) < 1
   \<and> sin (normalized_x 192 31) \<le> 1 \<and> sin (normalized_x 192 32) = 1
   \<and> snd (wave_points 192 ! 0) = 96"
proof -
  note t = first_peak
  from t have a: "sin (normalized_x 192 31) < 1"
    by (elim conjE allE [of _ 31]) simp
  from t have b: "sin (normalized_x 192 31) \<le> 1"
    by (elim conjE allE [of _ 31]) simp
  from t a b show ?thesis by simp
qed

subsection \<open>Bounds on the samples\<close>

lemma center_bounds:
  "real_of_int sz - 1 \<le> 2 * real_of_int (sz div 2) \<and> 2 * real_of_int (sz div 2) \<le> real_of_int sz"
proof -
  have i: "sz - 1 \<le> 2 * (sz div 2)" "2 * (sz div 2) \<le> sz" by presburger+
  have "real_of_int (sz - 1) \<le> real_of_int (2 * (sz div 2))"
    using i(1) by (simp only: of_int_le_iff)
  moreover have "real_of_int (2 * (sz div 2)) \<le> real_of_int sz"
    using i(2) by (simp only: of_int_le_iff)
  ultimately show ?thesis by simp
qed

lemma wave_y_range:
  assumes "0 \<le> sz"
  shows "real_of_int (sz div 2) - 0.15 * real_of_int sz \<le> wave_y sz x
       \<and> wave_y sz x \<le> real_of_int (sz div 2) + 0.15 * real_of_int sz"
proof -
  let ?a = "0.15 * real_of_int sz"
  let ?s = "sin (2 * pi * 1.5 * real_of_int x / real_of_int sz)"
  have a: "0 \<le> ?a" using assms by simp
  have "?s * ?a \<le> 1 * ?a"
    using a by (intro mult_right_mono sin_le_one)
  moreover have "(- 1) * ?a \<le> ?s * ?a"
    using a by (intro mult_right_mono sin_ge_minus_one)
  ultimately show ?thesis
    unfolding wave_y_eq by linarith
qed

lemma py_int_range:
  assumes "- 1 < r" "r < real_of_int n" "0 < n"
  shows "0 \<le> py_int r \<and> py_int r < n"
proof (cases "r < 0")
  case True
  have "\<lceil>r\<rceil> = 0"
    using assms(1) True by (intro ceiling_unique) simp_all
  with True assms(3) show ?thesis by (simp add: py_int_def)
next
  case False
  then have "0 \<le> \<lfloor>r\<rfloor>" by simp
  moreover have "\<lfloor>r\<rfloor> < n" using assms(2) by (simp add: floor_less_iff)
  ultimately show ?thesis using False by (simp add: py_int_def)
qed

lemma py_int_mono_bounds:
  assumes "real_of_int L \<le> r" "0 \<le> L" "r < real_of_int U"
  shows "L \<le> py_int r \<and> py_int r < U"
proof -
  have "0 \<le> real_of_int L" using assms(2) by simp
  with assms(1) have nn: "\<not> r < 0" by linarith
  have "L \<le> \<lfloor>r\<rfloor>" using assms(1) by (simp add: le_floor_iff)
  moreover have "\<lfloor>r\<rfloor> < U" using assms(3) by (simp add: floor_less_iff)
  ultimately show ?thesis using nn by (simp add: py_int_def)
qed

lemma wave_points_set:
  "set (wave_points sz) = (\<lambda>i. (i, py_int (wave_y sz i))) ` {0..sz - 1}"
  by (simp add: wave_points_eq)

lemma wave_points_y_range:
  assumes "0 \<le> sz" "0 \<le> L"
    and "real_of_int L \<le> real_of_int (sz div 2) - 0.15 * real_of_int sz"
    and "real_of_int (sz div 2) + 0.15 * real_of_int sz < real_of_int U"
  shows "\<forall>(x, y)\<in>set (wave_points sz). L \<le> y \<and> y < U"
proof -
  have "L \<le> py_int (wave_y sz i) \<and> py_int (wave_y sz i) < U" for i
  proof (rule py_int_mono_bounds)
    show "real_of_int L \<le> wave_y sz i"
      using wave_y_range [OF assms(1), of i] assms(3) by linarith
    show "0 \<le> L" by (rule assms(2))
    show "wave_y sz i < real_of_int U"
      using wave_y_range [OF assms(1), of i] assms(4) by linarith
  qed
  then show ?thesis by (simp add: wave_points_set)
qed

text \<open>
  C10 as stated fails in its reason at size 1: there the interval
  \<open>[size // 2 - 0.15 * size, size // 2 + 0.15 * size]\<close> is \<open>[-0.15, 0.15]\<close>, which is not
  inside \<open>[0, size)\<close>.
\<close>

theorem interval_at_size_one:
  "\<not> (0 \<le> real_of_int (wave_center_y 1) - wave_amplitude 1)"
  by (simp add: wave_center_y_def wave_amplitude_def)

text \<open>
  C10, as the script has it. For every size of at least 1 every point of the path has
  \<open>0 \<le> x < size\<close> and \<open>0 \<le> int(y) < size\<close>. The float \<open>y\<close> lies between
  \<open>size // 2 - 0.15 * size\<close> and \<open>size // 2 + 0.15 * size\<close>; that interval is inside
  \<open>(-1, size)\<close>, which is enough because \<open>int\<close> truncates toward zero, and inside
  \<open>[0, size)\<close> from size 2 on.
\<close>

theorem wave_in_bounds:
  assumes "1 \<le> sz"
  shows "(\<forall>(x, y)\<in>set (wave_points sz). 0 \<le> x \<and> x < sz \<and> 0 \<le> y \<and> y < sz)
       \<and> (\<forall>x. 0 \<le> x \<and> x < sz \<longrightarrow>
            real_of_int (wave_center_y sz) - wave_amplitude sz \<le> wave_y sz x
            \<and> wave_y sz x \<le> real_of_int (wave_center_y sz) + wave_amplitude sz)
       \<and> - 1 < real_of_int (wave_center_y sz) - wave_amplitude sz
       \<and> real_of_int (wave_center_y sz) + wave_amplitude sz < real_of_int sz
       \<and> (2 \<le> sz \<longrightarrow> 0 \<le> real_of_int (wave_center_y sz) - wave_amplitude sz)"
proof -
  have c: "real_of_int (wave_center_y sz) = real_of_int (sz div 2)"
    by (simp only: wave_center_y_def)
  have a: "wave_amplitude sz = 0.15 * real_of_int sz"
    by (simp add: wave_amplitude_def)
  have s1: "1 \<le> real_of_int sz" using assms by simp
  have s0: "0 \<le> sz" using assms by simp
  note cb = center_bounds [of sz]
  have q: "0.15 * real_of_int sz = 3 * real_of_int sz / 20" by simp
  have lo: "- 1 < real_of_int (sz div 2) - 0.15 * real_of_int sz"
    unfolding q using cb s1 by linarith
  have hi: "real_of_int (sz div 2) + 0.15 * real_of_int sz < real_of_int sz"
    unfolding q using cb s1 by linarith
  have lo2: "0 \<le> real_of_int (sz div 2) - 0.15 * real_of_int sz" if "2 \<le> sz"
  proof -
    have "2 \<le> real_of_int sz" using that by simp
    with cb show ?thesis unfolding q by linarith
  qed
  have rng: "real_of_int (sz div 2) - 0.15 * real_of_int sz \<le> wave_y sz x
           \<and> wave_y sz x \<le> real_of_int (sz div 2) + 0.15 * real_of_int sz" for x
    by (rule wave_y_range [OF s0])
  have pt: "0 \<le> py_int (wave_y sz i) \<and> py_int (wave_y sz i) < sz" for i
  proof (rule py_int_range)
    show "- 1 < wave_y sz i" using rng [of i] lo by linarith
    show "wave_y sz i < real_of_int sz" using rng [of i] hi by linarith
    show "0 < sz" using assms by simp
  qed
  have pts: "\<forall>(x, y)\<in>set (wave_points sz). 0 \<le> x \<and> x < sz \<and> 0 \<le> y \<and> y < sz"
    using pt by (auto simp: wave_points_set)
  show ?thesis
    unfolding c a using pts rng lo hi lo2 by blast
qed

theorem wave_in_bounds_witness:
  "(1::int) \<le> 2 \<and> (2::int) \<le> 2
   \<and> 0 \<le> real_of_int (wave_center_y 2) - wave_amplitude 2
   \<and> real_of_int (wave_center_y 2) + wave_amplitude 2 < 2
   \<and> 0 \<le> snd (wave_points 2 ! 0) \<and> snd (wave_points 2 ! 0) < 2"
proof -
  have h: "(1::int) \<le> 2" by simp
  note t = wave_in_bounds [OF h]
  from t have b: "\<forall>(x, y)\<in>set (wave_points 2). 0 \<le> x \<and> x < 2 \<and> 0 \<le> y \<and> y < 2"
    by (rule conjunct1)
  have m: "wave_points 2 ! 0 \<in> set (wave_points 2)"
    by (rule nth_mem) (simp add: wave_points_length)
  from bspec [OF b m] have p: "0 \<le> snd (wave_points 2 ! 0) \<and> snd (wave_points 2 ! 0) < 2"
    by (simp add: case_prod_beta)
  from t have q: "0 \<le> real_of_int (wave_center_y 2) - wave_amplitude 2
       \<and> real_of_int (wave_center_y 2) + wave_amplitude 2 < 2"
    by simp
  from p q show ?thesis by simp
qed

subsection \<open>The image\<close>

lemma getcolor_background: "getcolor ''#05060A'' ''RGB'' = Inr [5, 6, 10]"
  by (simp add: getcolor_def getrgb_def hex_digit_def err_bind_def)

lemma getcolor_accent: "getcolor ''#7AA7FF'' ''RGB'' = Inr [122, 167, 255]"
  by (simp add: getcolor_def getrgb_def hex_digit_def err_bind_def)

lemma getcolor_glow: "getcolor ''#7AA7FF40'' ''RGB'' = Inr [122, 167, 255]"
  by (simp add: getcolor_def getrgb_def hex_digit_def err_bind_def)

lemma getcolor_glow_rgba: "getcolor ''#7AA7FF40'' ''RGBA'' = Inr [122, 167, 255, 64]"
  by (simp add: getcolor_def getrgb_def hex_digit_def err_bind_def)

lemma icon_eq:
  assumes "0 \<le> sz"
  shows "icon sz = Inr
    \<lparr>im_mode = ''RGB'', im_size = (sz, sz), im_color = [5, 6, 10],
     im_paint =
       [Line (wave_points sz) [122, 167, 255] (line_width sz),
        Ellipse (marker_x sz - glow_radius sz, marker_y sz - glow_radius sz,
                 marker_x sz + glow_radius sz, marker_y sz + glow_radius sz) [122, 167, 255],
        Ellipse (marker_x sz - marker_radius sz, marker_y sz - marker_radius sz,
                 marker_x sz + marker_radius sz, marker_y sz + marker_radius sz)
          [122, 167, 255]]\<rparr>"
  using assms
  by (simp add: icon_def Image_new_def Draw_def draw_line_def draw_ellipse_def err_bind_def
      getcolor_background getcolor_accent getcolor_glow Let_def)













subsection \<open>The run\<close>




lemma guard_lines_ascii:
  "list_all (\<lambda>c. (of_char c :: nat) < 128)
     ''PIL (Pillow) not installed. Install with: pip install Pillow''"
  "list_all (\<lambda>c. (of_char c :: nat) < 128)
     ''Alternatively, use the online tool or ImageMagick (see ICONS_TODO.md)''"
  by simp_all

text \<open>
  C3. When the imports fail the script prints the two lines of install guidance and
  leaves through \<open>exit(1)\<close>: the outcome is a system exit with status 1, not a
  traceback, and the files are as they were.
\<close>

theorem missing_dependency:
  "\<exists>status w'. script False as_main w = SystemExit status w'
     \<and> status = 1 \<and> status \<noteq> 0
     \<and> files w' = files w
     \<and> stdout w' = stdout w @
         [''PIL (Pillow) not installed. Install with: pip install Pillow'',
          ''Alternatively, use the online tool or ImageMagick (see ICONS_TODO.md)'']"
  by (simp add: script_def import_guard_def io_bind_def print_def guard_lines_ascii)

text \<open>
  C6, on the code. The glow fill \<open>#7AA7FF40\<close> carries the alpha \<open>0x40\<close>, and a context of
  mode \<open>RGBA\<close> would keep it. The script's context comes from \<open>ImageDraw.Draw(img)\<close> on an
  \<open>RGB\<close> image: its mode is \<open>RGB\<close>, it does not blend, and the ink it makes of the fill is
  the three colour bytes. The glow disc is painted with the same opaque ink as the marker
  disc drawn over it.
\<close>

theorem glow_painted_opaque:
  "getcolor ''#7AA7FF40'' ''RGBA'' = Inr [122, 167, 255, 64]
   \<and> getcolor ''#7AA7FF40'' ''RGB'' = Inr [122, 167, 255]
   \<and> (\<exists>img. icon 192 = Inr img \<and> im_mode img = ''RGB''
        \<and> dr_mode (Draw img) = ''RGB'' \<and> \<not> dr_blend (Draw img)
        \<and> im_paint img =
            [Line (wave_points 192) [122, 167, 255] 2,
             Ellipse (86, 72, 106, 92) [122, 167, 255],
             Ellipse (90, 76, 102, 88) [122, 167, 255]])"
proof -
  have my: "marker_y 192 = 82"
    by (simp add: marker_y_def wave_center_y_def wave_amplitude_def py_int_def)
  have "icon 192 = Inr
    \<lparr>im_mode = ''RGB'', im_size = (192, 192), im_color = [5, 6, 10],
     im_paint =
       [Line (wave_points 192) [122, 167, 255] 2,
        Ellipse (86, 72, 106, 92) [122, 167, 255],
        Ellipse (90, 76, 102, 88) [122, 167, 255]]\<rparr>"
    using icon_eq [of 192]
    by (simp add: my marker_x_def glow_radius_def marker_radius_def line_width_def)
  then show ?thesis
    by (simp add: getcolor_glow getcolor_glow_rgba Draw_def)
qed

subsection \<open>The corners\<close>

lemma marker_y_eq:
  assumes "0 \<le> sz"
  shows "marker_y sz = sz div 2 - (3 * sz) div 40"
proof -
  have a: "wave_amplitude sz * 0.5 = real_of_int (3 * sz) / real_of_int 40"
    by (simp add: wave_amplitude_def)
  have c0: "\<lfloor>real_of_int (3 * sz) / real_of_int 40\<rfloor> = (3 * sz) div 40"
    by (rule floor_divide_of_int_eq)
  have nn: "\<not> real_of_int (3 * sz) / real_of_int 40 < 0"
    using assms by simp
  have "py_int (wave_amplitude sz * 0.5) = (3 * sz) div 40"
    unfolding a py_int_def using nn c0 by (simp only: if_False)
  then show ?thesis
    by (simp only: marker_y_def wave_center_y_def)
qed

lemma reach_line_y:
  assumes "reach (Line xy ink w) (px, py)"
    and "\<forall>(x, y)\<in>set xy. L \<le> y \<and> y < U"
  shows "L - w \<le> py \<and> py < U + w"
proof -
  from assms(1) obtain x1 y1 x2 y2
    where a: "(x1, y1) \<in> set xy" "y1 - w \<le> py" and b: "(x2, y2) \<in> set xy" "py \<le> y2 + w"
    by (auto simp: list_ex_iff)
  from assms(2) a(1) have "L \<le> y1" by auto
  moreover from assms(2) b(1) have "y2 < U" by auto
  ultimately show ?thesis using a(2) b(2) by linarith
qed

lemma corner_clear:
  assumes cov: "\<And>s p. covers s p \<Longrightarrow> reach s p"
    and sz: "1 \<le> sz"
    and pts: "\<forall>(x, y)\<in>set (wave_points sz). L \<le> y \<and> y < U"
    and l1: "0 < L - line_width sz" and l2: "U + line_width sz \<le> sz - 1"
    and g1: "0 < marker_y sz - glow_radius sz"
    and g2: "marker_y sz + glow_radius sz < sz - 1"
  shows "\<exists>img. icon sz = Inr img \<and> im_size img = (sz, sz)
           \<and> (\<forall>p\<in>set (corners (im_size img)). getpixel covers img p = [5, 6, 10])"
proof -
  define img where "img =
    \<lparr>im_mode = ''RGB'', im_size = (sz, sz), im_color = [5, 6, 10],
     im_paint =
       [Line (wave_points sz) [122, 167, 255] (line_width sz),
        Ellipse (marker_x sz - glow_radius sz, marker_y sz - glow_radius sz,
                 marker_x sz + glow_radius sz, marker_y sz + glow_radius sz) [122, 167, 255],
        Ellipse (marker_x sz - marker_radius sz, marker_y sz - marker_radius sz,
                 marker_x sz + marker_radius sz, marker_y sz + marker_radius sz)
          [122, 167, 255]]\<rparr>"
  have i: "icon sz = Inr img"
    unfolding img_def using sz by (intro icon_eq) simp
  have si: "im_size img = (sz, sz)"
    by (simp add: img_def)
  have mr: "marker_radius sz \<le> glow_radius sz"
    by (simp add: glow_radius_def)
  have nl: "\<not> covers (Line (wave_points sz) c (line_width sz)) (px, py)"
    if "py = 0 \<or> py = sz - 1" for px py c
  proof
    assume "covers (Line (wave_points sz) c (line_width sz)) (px, py)"
    then have "reach (Line (wave_points sz) c (line_width sz)) (px, py)" by (rule cov)
    from reach_line_y [OF this pts] that l1 l2 show False by linarith
  qed
  have ne: "\<not> covers (Ellipse (x0, marker_y sz - r, x1, marker_y sz + r) c) (px, py)"
    if "py = 0 \<or> py = sz - 1" "r \<le> glow_radius sz" for px py c x0 x1 r
  proof
    assume "covers (Ellipse (x0, marker_y sz - r, x1, marker_y sz + r) c) (px, py)"
    then have "reach (Ellipse (x0, marker_y sz - r, x1, marker_y sz + r) c) (px, py)"
      by (rule cov)
    then have "marker_y sz - r \<le> py \<and> py \<le> marker_y sz + r" by simp
    with that g1 g2 show False by linarith
  qed
  have px: "getpixel covers img (px, py) = [5, 6, 10]" if "py = 0 \<or> py = sz - 1" for px py
    using nl [OF that] ne [OF that mr] ne [OF that order_refl]
    by (simp add: getpixel_def img_def)
  have "\<forall>p\<in>set (corners (im_size img)). getpixel covers img p = [5, 6, 10]"
    unfolding si by (simp add: corners_def px)
  with i si show ?thesis by blast
qed

lemma corners_192:
  assumes "\<And>s p. covers s p \<Longrightarrow> reach s p"
  shows "\<exists>img. icon 192 = Inr img \<and> im_size img = (192, 192)
           \<and> (\<forall>p\<in>set (corners (im_size img)). getpixel covers img p = [5, 6, 10])"
proof (rule corner_clear [where L = 67 and U = 125])
  show "\<forall>(x, y)\<in>set (wave_points 192). 67 \<le> y \<and> y < 125"
    by (rule wave_points_y_range) simp_all
qed (use assms in \<open>simp_all add: line_width_def marker_y_eq glow_radius_def marker_radius_def\<close>)

lemma corners_512:
  assumes "\<And>s p. covers s p \<Longrightarrow> reach s p"
  shows "\<exists>img. icon 512 = Inr img \<and> im_size img = (512, 512)
           \<and> (\<forall>p\<in>set (corners (im_size img)). getpixel covers img p = [5, 6, 10])"
proof (rule corner_clear [where L = 179 and U = 333])
  show "\<forall>(x, y)\<in>set (wave_points 512). 179 \<le> y \<and> y < 333"
    by (rule wave_points_y_range) simp_all
qed (use assms in \<open>simp_all add: line_width_def marker_y_eq glow_radius_def marker_radius_def\<close>)

lemma corners_32:
  assumes "\<And>s p. covers s p \<Longrightarrow> reach s p"
  shows "\<exists>img. icon 32 = Inr img \<and> im_size img = (32, 32)
           \<and> (\<forall>p\<in>set (corners (im_size img)). getpixel covers img p = [5, 6, 10])"
proof (rule corner_clear [where L = 11 and U = 21])
  show "\<forall>(x, y)\<in>set (wave_points 32). 11 \<le> y \<and> y < 21"
    by (rule wave_points_y_range) simp_all
qed (use assms in \<open>simp_all add: line_width_def marker_y_eq glow_radius_def marker_radius_def\<close>)

lemma corners_180:
  assumes "\<And>s p. covers s p \<Longrightarrow> reach s p"
  shows "\<exists>img. icon 180 = Inr img \<and> im_size img = (180, 180)
           \<and> (\<forall>p\<in>set (corners (im_size img)). getpixel covers img p = [5, 6, 10])"
proof (rule corner_clear [where L = 63 and U = 118])
  show "\<forall>(x, y)\<in>set (wave_points 180). 63 \<le> y \<and> y < 118"
    by (rule wave_points_y_range) simp_all
qed (use assms in \<open>simp_all add: line_width_def marker_y_eq glow_radius_def marker_radius_def\<close>)

text \<open>
  C9. Let the rasteriser paint a shape only within its reach: an ellipse within its
  bounding box, the line within the bounding box of its points widened by the stroke
  width. Then in each of the four images the script renders, of sizes 192, 512, 32 and
  180, the pixel at every one of the four corners has the background colour
  \<open>#05060A\<close>, that is (5, 6, 10): neither the stroke nor the two discs reach the top or
  the bottom row.
\<close>

theorem corners_keep_background:
  assumes "\<And>s p. covers s p \<Longrightarrow> reach s p"
  shows "\<forall>sz\<in>set [192, 512, 32, 180].
           \<exists>img. icon sz = Inr img \<and> im_size img = (sz, sz)
             \<and> corners (im_size img) = [(0, 0), (sz - 1, 0), (0, sz - 1), (sz - 1, sz - 1)]
             \<and> (\<forall>p\<in>set (corners (im_size img)). getpixel covers img p = [5, 6, 10])"
proof -
  have c: "\<exists>img. icon sz = Inr img \<and> im_size img = (sz, sz)
             \<and> corners (im_size img) = [(0, 0), (sz - 1, 0), (0, sz - 1), (sz - 1, sz - 1)]
             \<and> (\<forall>p\<in>set (corners (im_size img)). getpixel covers img p = [5, 6, 10])"
    if "\<exists>img. icon sz = Inr img \<and> im_size img = (sz, sz)
           \<and> (\<forall>p\<in>set (corners (im_size img)). getpixel covers img p = [5, 6, 10])" for sz
  proof -
    from that obtain img where i: "icon sz = Inr img" "im_size img = (sz, sz)"
      "\<forall>p\<in>set (corners (im_size img)). getpixel covers img p = [5, 6, 10]"
      by blast
    have "corners (im_size img) = [(0, 0), (sz - 1, 0), (0, sz - 1), (sz - 1, sz - 1)]"
      by (simp add: corners_def i(2))
    with i show ?thesis by blast
  qed
  from c [OF corners_192 [OF assms]] c [OF corners_512 [OF assms]]
    c [OF corners_32 [OF assms]] c [OF corners_180 [OF assms]]
  show ?thesis by simp
qed

theorem corners_keep_background_witness:
  "(32::int) \<in> set [192, 512, 32, 180]
   \<and> (\<exists>img. icon 32 = Inr img \<and> getpixel reach img (0, 0) = [5, 6, 10]
        \<and> getpixel reach img (31, 31) = [5, 6, 10])"
proof -
  have h: "\<And>s p. reach s p \<Longrightarrow> reach s p" by assumption
  have m: "(32::int) \<in> set [192, 512, 32, 180]" by simp
  from bspec [OF corners_keep_background [of reach, OF h] m]
  obtain img where i: "icon 32 = Inr img"
    and c: "corners (im_size img) = [(0, 0), (32 - 1, 0), (0, 32 - 1), (32 - 1, 32 - 1)]"
    and p: "\<forall>p\<in>set (corners (im_size img)). getpixel reach img p = [5, 6, 10]"
    by blast
  from p have "getpixel reach img (0, 0) = [5, 6, 10] \<and> getpixel reach img (31, 31) = [5, 6, 10]"
    unfolding c by simp
  with i m show ?thesis by blast
qed

end
